theory Spec2Isabelle
  imports Complex_Main
begin

section \<open>Go channels\<close>

text \<open>
  A channel as the operations of \<^verbatim>\<open>pkg/bench/benchmark.go\<close> see it.
  \<^item> \<open>buf\<close>: the values a receiver can take now, oldest first (the buffered ones, then
    those of senders parked in a send);
  \<^item> \<open>cap\<close>: the capacity given to \<^verbatim>\<open>make\<close>; it bounds the sends of this program;
  \<^item> \<open>closed\<close>: \<^verbatim>\<open>close\<close> has been called;
  \<^item> \<open>recvq\<close>: the number of receivers parked in a receive.
  A nil channel is \<open>None\<close> of type \<open>'a chan option\<close>.
\<close>

record 'a chan =
  buf :: "'a list"
  cap :: nat
  closed :: bool
  recvq :: nat

definition make_chan :: "nat \<Rightarrow> 'a chan" where
  "make_chan n = \<lparr>buf = [], cap = n, closed = False, recvq = 0\<rparr>"

datatype 'a sent = Sent "'a chan" | SendBlocked | SendPanic

datatype 'a recvd = Recv 'a bool "'a chan" | RecvBlocked

text \<open>
  One attempt of \<^verbatim>\<open>c <- v\<close>: a send on a closed channel panics, a parked receiver
  takes the value at once, a buffer with room stores it, and otherwise the send cannot
  proceed.
\<close>

definition chansend :: "'a chan \<Rightarrow> 'a \<Rightarrow> 'a sent" where
  "chansend c v =
     (if closed c then SendPanic
      else if 0 < recvq c then Sent (c\<lparr>recvq := recvq c - 1\<rparr>)
      else if length (buf c) < cap c then Sent (c\<lparr>buf := buf c @ [v]\<rparr>)
      else SendBlocked)"

text \<open>
  One attempt of \<^verbatim>\<open>v, ok := <-c\<close>: a pending value is taken; a closed and drained
  channel yields the zero value with \<open>ok = False\<close>, again and again; otherwise the
  receive cannot proceed.
\<close>

definition chanrecv :: "'a \<Rightarrow> 'a chan \<Rightarrow> 'a recvd" where
  "chanrecv zero c =
     (case buf c of
        v # vs \<Rightarrow> Recv v True (c\<lparr>buf := vs\<rparr>)
      | [] \<Rightarrow> if closed c then Recv zero False c else RecvBlocked)"

text \<open>\<^verbatim>\<open>close(c)\<close>; closing a closed channel panics (\<open>None\<close>).\<close>

definition closechan :: "'a chan \<Rightarrow> 'a chan option" where
  "closechan c = (if closed c then None else Some (c\<lparr>closed := True\<rparr>))"

section \<open>float64 and the clamp of prepareProgress\<close>

text \<open>
  The float64 values as far as \<^verbatim>\<open>math.Max\<close>, \<^verbatim>\<open>math.Min\<close> and the comparisons
  tell them apart: NaN, the two infinities, negative zero, and the other finite values
  by their rational value (\<open>Num 0\<close> is positive zero). Every finite float64 is a
  rational; no operation below computes a new number, so no rounding is involved.
\<close>

datatype float64 = NaN | PosInf | NegInf | NegZero | Num rat

fun num :: "float64 \<Rightarrow> rat" where
  "num (Num q) = q"
| "num _ = 0"

text \<open>The comparison \<^verbatim>\<open>x < y\<close> of Go: false as soon as an operand is NaN.\<close>

fun fless :: "float64 \<Rightarrow> float64 \<Rightarrow> bool" where
  "fless NaN _ = False"
| "fless _ NaN = False"
| "fless _ NegInf = False"
| "fless NegInf _ = True"
| "fless PosInf _ = False"
| "fless _ PosInf = True"
| "fless x y = (num x < num y)"

text \<open>\<^verbatim>\<open>x == y\<close>: NaN equals nothing, the two zeros are equal.\<close>

fun feq :: "float64 \<Rightarrow> float64 \<Rightarrow> bool" where
  "feq NaN _ = False"
| "feq _ NaN = False"
| "feq PosInf y = (y = PosInf)"
| "feq NegInf y = (y = NegInf)"
| "feq x PosInf = False"
| "feq x NegInf = False"
| "feq x y = (num x = num y)"

definition fle :: "float64 \<Rightarrow> float64 \<Rightarrow> bool" where
  "fle x y = (fless x y \<or> feq x y)"

text \<open>
  \<^verbatim>\<open>math.IsInf(f, sign)\<close>, \<^verbatim>\<open>math.IsNaN\<close> and \<^verbatim>\<open>math.Signbit\<close>. The sign bit of
  a NaN is not modelled: \<^verbatim>\<open>math.Max\<close> and \<^verbatim>\<open>math.Min\<close> read the sign bit of a zero
  only.
\<close>

definition IsInf :: "float64 \<Rightarrow> int \<Rightarrow> bool" where
  "IsInf f sign = (sign \<ge> 0 \<and> f = PosInf \<or> sign \<le> 0 \<and> f = NegInf)"

definition IsNaN :: "float64 \<Rightarrow> bool" where
  "IsNaN f = (f = NaN)"

fun Signbit :: "float64 \<Rightarrow> bool" where
  "Signbit NegInf = True"
| "Signbit NegZero = True"
| "Signbit (Num q) = (q < 0)"
| "Signbit _ = False"

text \<open>
  \<^verbatim>\<open>math.Max\<close> and \<^verbatim>\<open>math.Min\<close> of the Go library, with their special cases in the
  library's order: an infinity of the right sign wins, then NaN, then the signed zeros,
  then the comparison.
\<close>

definition math_Max :: "float64 \<Rightarrow> float64 \<Rightarrow> float64" where
  "math_Max x y =
     (if IsInf x 1 \<or> IsInf y 1 then PosInf
      else if IsNaN x \<or> IsNaN y then NaN
      else if feq x (Num 0) \<and> feq x y then (if Signbit x then y else x)
      else if fless y x then x
      else y)"

definition math_Min :: "float64 \<Rightarrow> float64 \<Rightarrow> float64" where
  "math_Min x y =
     (if IsInf x (- 1) \<or> IsInf y (- 1) then NegInf
      else if IsNaN x \<or> IsNaN y then NaN
      else if feq x (Num 0) \<and> feq x y then (if Signbit x then x else y)
      else if fless x y then x
      else y)"

text \<open>A sample lies in \<open>[0,1]\<close>.\<close>

definition in_unit :: "float64 \<Rightarrow> bool" where
  "in_unit p = (fle (Num 0) p \<and> fle p (Num 1))"

section \<open>Common.prepareProgress\<close>

text \<open>
  Of the fields of \<^verbatim>\<open>Common\<close>, \<^verbatim>\<open>prepareProgress\<close> reads \<^verbatim>\<open>PrepareProgress\<close> only.
  A call of a Go function returns, panics, or never comes back.
\<close>

record Common =
  PrepareProgress :: "float64 chan option"

datatype 'a exit = Returns 'a | Panics | Blocks

text \<open>
  \<^verbatim>\<open>
  if c.PrepareProgress == nil { return }
  progress = math.Max(0, math.Min(1, progress))
  select {
  case c.PrepareProgress <- progress:
  default:
  }
  \<close>
  The result is the sample that was delivered, if any, and the configuration with the
  channel as the call leaves it.
\<close>

definition prepareProgress :: "Common \<Rightarrow> float64 \<Rightarrow> (float64 option \<times> Common) exit" where
  "prepareProgress c progress =
     (case PrepareProgress c of
        None \<Rightarrow> Returns (None, c)
      | Some ch \<Rightarrow>
          (let progress = math_Max (Num 0) (math_Min (Num 1) progress) in
           case chansend ch progress of
             Sent ch' \<Rightarrow> Returns (Some progress, c\<lparr>PrepareProgress := Some ch'\<rparr>)
           | SendBlocked \<Rightarrow> Returns (None, c)
           | SendPanic \<Rightarrow> Panics))"

text \<open>The sink can take a value now: it is open, and a receiver waits or the buffer has room.\<close>

definition ready :: "'a chan \<Rightarrow> bool" where
  "ready ch = (\<not> closed ch \<and> (0 < recvq ch \<or> length (buf ch) < cap ch))"

section \<open>Common.deleteAllInBucket: one worker\<close>

text \<open>
  Of \<^verbatim>\<open>minio.ObjectInfo\<close> the worker reads \<^verbatim>\<open>Key\<close>, \<^verbatim>\<open>VersionID\<close> and \<^verbatim>\<open>Err\<close>; of
  \<^verbatim>\<open>minio.RemoveObjectError\<close> it reads \<^verbatim>\<open>Err\<close>. An \<^verbatim>\<open>error\<close> is its message,
  \<open>None\<close> is nil.
\<close>

type_synonym error = string

record ObjectInfo =
  Key :: string
  VersionID :: string
  Err :: "error option"

record RemoveObjectError =
  ObjectName :: string
  RemoveVersionID :: string
  RemoveErr :: "error option"

definition zeroObjectInfo :: ObjectInfo where
  "zeroObjectInfo = \<lparr>Key = '''', VersionID = '''', Err = None\<rparr>"

definition zeroRemoveObjectError :: RemoveObjectError where
  "zeroRemoveObjectError = \<lparr>ObjectName = '''', RemoveVersionID = '''', RemoveErr = None\<rparr>"

text \<open>
  What \<^verbatim>\<open>console.Error\<close> is given: an error (lines 117 and 129) or the whole
  \<^verbatim>\<open>RemoveObjectError\<close> (lines 141 and 145).
\<close>

datatype logged = LogErr error | LogRemoveErr RemoveObjectError

text \<open>
  Where a worker goroutine (lines 102 to 148) stands:
  \<^item> \<open>WStart\<close>: spawned, before line 105;
  \<^item> \<open>WSelect\<close>: in the \<^verbatim>\<open>select\<close> of line 123;
  \<^item> \<open>WSendNext obj\<close>: in the \<^verbatim>\<open>select\<close> of line 134, with \<open>obj\<close> to send;
  \<^item> \<open>WDeferWait\<close>: in the deferred function of line 111, after \<^verbatim>\<open>close(remove)\<close>,
    in the receive of line 115;
  \<^item> \<open>WExited\<close>: every deferred call has run;
  \<^item> \<open>WPanicked\<close>: a send on, or a close of, a closed channel.
\<close>

datatype wpc = WStart | WSelect | WSendNext ObjectInfo | WDeferWait | WExited | WPanicked

record worker =
  pc :: wpc
  bucket :: string
  prefix :: string
  doneCh :: "unit chan"
  acquired :: nat
  released :: nat
  remove :: "ObjectInfo chan"
  errCh :: "RemoveObjectError chan"
  objects :: "ObjectInfo chan"

text \<open>
  The goroutine of line 102 as it is spawned for one prefix. Its channels are made at
  its first step; \<open>acquired\<close> counts the calls of \<^verbatim>\<open>c.Client()\<close> and \<open>released\<close>
  the calls of the \<^verbatim>\<open>done\<close> it returned.
\<close>

definition spawn_worker :: "string \<Rightarrow> string \<Rightarrow> worker" where
  "spawn_worker b p =
     \<lparr>pc = WStart, bucket = b, prefix = p, doneCh = make_chan 0, acquired = 0, released = 0,
      remove = make_chan 0, errCh = make_chan 0, objects = make_chan 0\<rparr>"

text \<open>The steps a worker can be scheduled for.\<close>

datatype wevent = Start | RecvObject | RecvErr | SendRemove

text \<open>
  Lines 135 to 138: the value sent on \<^verbatim>\<open>remove\<close> carries the key and the version.
\<close>

definition identity :: "ObjectInfo \<Rightarrow> ObjectInfo" where
  "identity obj = \<lparr>Key = Key obj, VersionID = VersionID obj, Err = None\<rparr>"

text \<open>
  The \<^verbatim>\<open>return\<close> of line 126 starts the deferred calls, last one first. The first
  is the function of line 111: \<^verbatim>\<open>close(remove)\<close>, then the receive of line 115.
\<close>

definition deferred_close :: "worker \<Rightarrow> worker" where
  "deferred_close w =
     (case closechan (remove w) of
        None \<Rightarrow> w\<lparr>pc := WPanicked\<rparr>
      | Some c \<Rightarrow> w\<lparr>remove := c, pc := WDeferWait\<rparr>)"

text \<open>
  After the receive of line 115 gave \<open>err\<close>: lines 116 to 118, then \<^verbatim>\<open>done()\<close>
  (line 108), \<^verbatim>\<open>close(doneCh)\<close> (line 106) and \<^verbatim>\<open>wg.Done()\<close> (line 103). The
  result is the worker, what was logged, and whether \<^verbatim>\<open>wg.Done()\<close> ran.
\<close>

definition deferred_rest :: "worker \<Rightarrow> RemoveObjectError \<Rightarrow> worker \<times> logged list \<times> bool" where
  "deferred_rest w err =
     (let out = (case RemoveErr err of None \<Rightarrow> [] | Some e \<Rightarrow> [LogErr e]);
          w = w\<lparr>released := released w + 1\<rparr>
      in case closechan (doneCh w) of
           None \<Rightarrow> (w\<lparr>pc := WPanicked\<rparr>, out, False)
         | Some c \<Rightarrow> (w\<lparr>doneCh := c, pc := WExited\<rparr>, out, True))"

text \<open>
  One step of a worker: \<open>None\<close> when the worker cannot take this step now (the
  communication cannot proceed, or the worker stands elsewhere). The channels returned
  by \<^verbatim>\<open>cl.RemoveObjects\<close> and \<^verbatim>\<open>cl.ListObjects\<close> belong to the backend, which fills
  and closes them; the worker only receives from them.
\<close>

definition worker_step :: "wevent \<Rightarrow> worker \<Rightarrow> (worker \<times> logged list \<times> bool) option" where
  "worker_step ev w =
     (case (pc w, ev) of
        (WStart, Start) \<Rightarrow>
          Some (w\<lparr>pc := WSelect, doneCh := make_chan 0, acquired := acquired w + 1,
                  remove := make_chan 100, errCh := make_chan 1, objects := make_chan 1\<rparr>,
                [], False)
      | (WSelect, RecvObject) \<Rightarrow>
          (case chanrecv zeroObjectInfo (objects w) of
             RecvBlocked \<Rightarrow> None
           | Recv obj ok c \<Rightarrow>
               if \<not> ok then Some (deferred_close (w\<lparr>objects := c\<rparr>), [], False)
               else (case Err obj of
                       Some e \<Rightarrow> Some (w\<lparr>objects := c\<rparr>, [LogErr e], False)
                     | None \<Rightarrow> Some (w\<lparr>objects := c, pc := WSendNext obj\<rparr>, [], False)))
      | (WSelect, RecvErr) \<Rightarrow>
          (case chanrecv zeroRemoveObjectError (errCh w) of
             RecvBlocked \<Rightarrow> None
           | Recv err ok c \<Rightarrow> Some (w\<lparr>errCh := c\<rparr>, [LogRemoveErr err], False))
      | (WSendNext obj, SendRemove) \<Rightarrow>
          (case chansend (remove w) (identity obj) of
             SendBlocked \<Rightarrow> None
           | SendPanic \<Rightarrow> Some (w\<lparr>pc := WPanicked\<rparr>, [], False)
           | Sent c \<Rightarrow> Some (w\<lparr>remove := c, pc := WSelect\<rparr>, [], False))
      | (WSendNext obj, RecvErr) \<Rightarrow>
          (case chanrecv zeroRemoveObjectError (errCh w) of
             RecvBlocked \<Rightarrow> None
           | Recv err ok c \<Rightarrow> Some (w\<lparr>errCh := c\<rparr>, [LogRemoveErr err], False))
      | (WDeferWait, RecvErr) \<Rightarrow>
          (case chanrecv zeroRemoveObjectError (errCh w) of
             RecvBlocked \<Rightarrow> None
           | Recv err ok c \<Rightarrow> Some (deferred_rest (w\<lparr>errCh := c\<rparr>) err))
      | _ \<Rightarrow> None)"

text \<open>The worker is parked: none of its steps can be taken.\<close>

definition worker_blocked :: "worker \<Rightarrow> bool" where
  "worker_blocked w =
     (worker_step Start w = None \<and> worker_step RecvObject w = None \<and>
      worker_step RecvErr w = None \<and> worker_step SendRemove w = None)"

section \<open>The storage backend\<close>

text \<open>
  The backend is not part of this program. It is left free: at any moment after
  \<^verbatim>\<open>cl.RemoveObjects\<close> and \<^verbatim>\<open>cl.ListObjects\<close> were called it may offer a listing
  entry, end the listing, take the oldest identity off \<^verbatim>\<open>remove\<close>, offer a delete error
  or close the error channel. It never closes \<^verbatim>\<open>remove\<close> and sends nothing on a channel
  it has closed.
\<close>

datatype bevent = BList ObjectInfo | BCloseList | BTake | BError RemoveObjectError | BCloseErr

definition backend_step :: "bevent \<Rightarrow> worker \<Rightarrow> worker option" where
  "backend_step ev w =
     (if pc w = WStart then None
      else case ev of
        BList obj \<Rightarrow>
          if closed (objects w) then None
          else Some (w\<lparr>objects := (objects w)\<lparr>buf := buf (objects w) @ [obj]\<rparr>\<rparr>)
      | BCloseList \<Rightarrow>
          (case closechan (objects w) of None \<Rightarrow> None | Some c \<Rightarrow> Some (w\<lparr>objects := c\<rparr>))
      | BTake \<Rightarrow>
          (case buf (remove w) of
             [] \<Rightarrow> None
           | x # xs \<Rightarrow> Some (w\<lparr>remove := (remove w)\<lparr>buf := xs\<rparr>\<rparr>))
      | BError err \<Rightarrow>
          if closed (errCh w) then None
          else Some (w\<lparr>errCh := (errCh w)\<lparr>buf := buf (errCh w) @ [err]\<rparr>\<rparr>)
      | BCloseErr \<Rightarrow>
          (case closechan (errCh w) of None \<Rightarrow> None | Some c \<Rightarrow> Some (w\<lparr>errCh := c\<rparr>)))"

section \<open>Common.deleteAllInBucket: the whole call\<close>

text \<open>
  The goroutine of line 91 (the watchdog) waits in its \<^verbatim>\<open>select\<close> (\<open>WdSelect\<close>), has
  taken the case of line 93 and is about to write (\<open>WdDump\<close>), or has returned
  (\<open>WdExited\<close>). The caller's goroutine is in \<^verbatim>\<open>wg.Wait()\<close> (\<open>MWait\<close>), has
  returned, or has panicked.
\<close>

datatype wdpc = WdSelect | WdDump | WdExited

datatype mpc = MWait | MReturned | MPanicked

text \<open>
  What \<^verbatim>\<open>pprof.Lookup("goroutine").WriteTo(os.Stdout, 1)\<close> writes: where every
  goroutine of the call stands at that moment.
\<close>

record snapshot =
  snap_main :: mpc
  snap_workers :: "wpc list"

record pipeline =
  workers :: "worker list"
  wg :: int
  main :: mpc
  finished :: "unit chan"
  watchdog :: wdpc
  timer :: "unit chan"
  minute_elapsed :: bool
  console :: "logged list"
  stdout :: "snapshot list"
  ctx_done :: bool

text \<open>
  Lines 86 to 101. The state when every goroutine is spawned and none has run: the
  argument \<open>ctx\<close> tells whether the context is already cancelled; \<open>timer\<close> is the
  channel of \<^verbatim>\<open>time.After(time.Minute)\<close>.
\<close>

definition deleteAllInBucket :: "bool \<Rightarrow> string \<Rightarrow> string list \<Rightarrow> pipeline" where
  "deleteAllInBucket ctx b prefixes =
     (let prefixes = (if length prefixes = 0 then [''''] else prefixes) in
      \<lparr>workers = map (spawn_worker b) prefixes, wg = int (length prefixes), main = MWait,
       finished = make_chan 0, watchdog = WdSelect, timer = make_chan 1,
       minute_elapsed = False, console = [], stdout = [], ctx_done = ctx\<rparr>)"

text \<open>An unrecovered panic in any goroutine ends the process.\<close>

definition crashed :: "pipeline \<Rightarrow> bool" where
  "crashed s = (main s = MPanicked \<or> list_ex (\<lambda>w. pc w = WPanicked) (workers s))"

text \<open>
  What can happen next: a step of worker \<open>i\<close>, a step of the backend on the channels of
  worker \<open>i\<close>, the return of \<^verbatim>\<open>wg.Wait()\<close> with the deferred \<^verbatim>\<open>close(finished)\<close>, the
  runtime delivering on the timer channel after one minute, the three steps of the
  watchdog, and the cancellation of the context.
\<close>

datatype event =
    Worker nat wevent
  | Backend nat bevent
  | MainReturn
  | TimerFires
  | WatchdogTimer
  | WatchdogDump
  | WatchdogFinished
  | Cancel

definition step :: "event \<Rightarrow> pipeline \<Rightarrow> pipeline option" where
  "step e s =
     (if crashed s then None
      else case e of
        Worker i ev \<Rightarrow>
          if i < length (workers s) then
            (case worker_step ev (workers s ! i) of
               None \<Rightarrow> None
             | Some (w, out, d) \<Rightarrow>
                 Some (s\<lparr>workers := (workers s)[i := w], console := console s @ out,
                         wg := (if d then wg s - 1 else wg s)\<rparr>))
          else None
      | Backend i ev \<Rightarrow>
          if i < length (workers s) then
            (case backend_step ev (workers s ! i) of
               None \<Rightarrow> None
             | Some w \<Rightarrow> Some (s\<lparr>workers := (workers s)[i := w]\<rparr>))
          else None
      | MainReturn \<Rightarrow>
          if main s = MWait \<and> wg s = 0 then
            (case closechan (finished s) of
               None \<Rightarrow> Some (s\<lparr>main := MPanicked\<rparr>)
             | Some c \<Rightarrow> Some (s\<lparr>finished := c, main := MReturned\<rparr>))
          else None
      | TimerFires \<Rightarrow>
          if minute_elapsed s then None
          else (case chansend (timer s) () of
                  Sent c \<Rightarrow> Some (s\<lparr>timer := c, minute_elapsed := True\<rparr>)
                | _ \<Rightarrow> None)
      | WatchdogTimer \<Rightarrow>
          if watchdog s = WdSelect then
            (case chanrecv () (timer s) of
               RecvBlocked \<Rightarrow> None
             | Recv t ok c \<Rightarrow> Some (s\<lparr>timer := c, watchdog := WdDump\<rparr>))
          else None
      | WatchdogDump \<Rightarrow>
          if watchdog s = WdDump then
            Some (s\<lparr>stdout := stdout s @ [\<lparr>snap_main = main s, snap_workers = map pc (workers s)\<rparr>],
                    watchdog := WdExited\<rparr>)
          else None
      | WatchdogFinished \<Rightarrow>
          if watchdog s = WdSelect then
            (case chanrecv () (finished s) of
               RecvBlocked \<Rightarrow> None
             | Recv u ok c \<Rightarrow> Some (s\<lparr>finished := c, watchdog := WdExited\<rparr>))
          else None
      | Cancel \<Rightarrow> if ctx_done s then None else Some (s\<lparr>ctx_done := True\<rparr>))"

text \<open>A schedule is run event by event; \<open>None\<close> when one of its events cannot happen.\<close>

fun run :: "event list \<Rightarrow> pipeline \<Rightarrow> pipeline option" where
  "run [] s = Some s"
| "run (e # es) s = (case step e s of None \<Rightarrow> None | Some t \<Rightarrow> run es t)"

text \<open>
  What the caller of \<^verbatim>\<open>deleteAllInBucket\<close> gets: the function has no result, so the
  call is still running, has returned, or the process has died of a panic.
\<close>

datatype outcome = Pending | Returned | Crashed

definition call_outcome :: "pipeline \<Rightarrow> outcome" where
  "call_outcome s =
     (if crashed s then Crashed else if main s = MReturned then Returned else Pending)"

section \<open>Invariants of the call\<close>

text \<open>
  What holds of a worker wherever it stands: the handle is acquired once at the first
  step and released once by the deferred \<^verbatim>\<open>done()\<close>; \<^verbatim>\<open>remove\<close> is open while the
  worker sends on it and closed from the deferred function on.
\<close>

definition worker_inv :: "worker \<Rightarrow> bool" where
  "worker_inv w =
     (case pc w of
        WStart \<Rightarrow> acquired w = 0 \<and> released w = 0
      | WSelect \<Rightarrow>
          acquired w = 1 \<and> released w = 0 \<and> \<not> closed (remove w) \<and> \<not> closed (doneCh w)
      | WSendNext obj \<Rightarrow>
          acquired w = 1 \<and> released w = 0 \<and> \<not> closed (remove w) \<and> \<not> closed (doneCh w)
      | WDeferWait \<Rightarrow>
          acquired w = 1 \<and> released w = 0 \<and> closed (remove w) \<and> \<not> closed (doneCh w)
      | WExited \<Rightarrow> acquired w = 1 \<and> released w = 1
      | WPanicked \<Rightarrow> False)"

text \<open>The number of workers that have not yet run \<^verbatim>\<open>wg.Done()\<close>.\<close>

definition active :: "worker list \<Rightarrow> nat" where
  "active ws = sum_list (map (\<lambda>w. if pc w = WExited then 0 else 1) ws)"

text \<open>
  The wait group counts the workers still running, nothing is ever sent on
  \<^verbatim>\<open>finished\<close>, and \<^verbatim>\<open>finished\<close> is closed exactly when the call has returned.
\<close>

definition pipeline_inv :: "pipeline \<Rightarrow> bool" where
  "pipeline_inv s =
     (list_all worker_inv (workers s) \<and> wg s = int (active (workers s)) \<and>
      buf (finished s) = [] \<and>
      (case main s of
         MWait \<Rightarrow> \<not> closed (finished s)
       | MReturned \<Rightarrow> closed (finished s) \<and> wg s = 0
       | MPanicked \<Rightarrow> False))"

text \<open>
  The timer channel holds a value only once the minute has elapsed, and holds it until
  the watchdog takes it; the watchdog has written nothing before it leaves, one snapshot
  at most after.
\<close>

definition watchdog_inv :: "pipeline \<Rightarrow> bool" where
  "watchdog_inv s =
     (\<not> closed (timer s) \<and> recvq (timer s) = 0 \<and> (buf (timer s) = [] \<or> minute_elapsed s) \<and>
      (case watchdog s of
         WdSelect \<Rightarrow> stdout s = [] \<and> minute_elapsed s = (buf (timer s) \<noteq> [])
       | WdDump \<Rightarrow> stdout s = [] \<and> minute_elapsed s
       | WdExited \<Rightarrow> length (stdout s) \<le> 1 \<and> (stdout s = [] \<or> minute_elapsed s)))"

section \<open>Example runs\<close>

text \<open>A listed object, a listing entry that carries an error, and two delete errors.\<close>

definition obj1 :: ObjectInfo where
  "obj1 = \<lparr>Key = ''a/1'', VersionID = ''v1'', Err = None\<rparr>"

definition bad_entry :: ObjectInfo where
  "bad_entry = \<lparr>Key = '''', VersionID = '''', Err = Some ''connection refused''\<rparr>"

definition err1 :: RemoveObjectError where
  "err1 = \<lparr>ObjectName = ''a/1'', RemoveVersionID = ''v1'', RemoveErr = Some ''access denied''\<rparr>"

definition err2 :: RemoveObjectError where
  "err2 = \<lparr>ObjectName = ''a/2'', RemoveVersionID = ''v1'', RemoveErr = Some ''access denied''\<rparr>"

text \<open>
  The backend lists an object 101 times and takes nothing off \<^verbatim>\<open>remove\<close>: the worker
  sends 100 identities and stands in the inner \<^verbatim>\<open>select\<close> with the last one.
\<close>

definition fill_queue :: "event list" where
  "fill_queue =
     Worker 0 Start #
     concat (replicate 100 [Backend 0 (BList obj1), Worker 0 RecvObject, Worker 0 SendRemove]) @
     [Backend 0 (BList obj1), Worker 0 RecvObject]"

definition full_worker :: "RemoveObjectError list \<Rightarrow> worker" where
  "full_worker errs =
     \<lparr>pc = WSendNext obj1, bucket = ''b'', prefix = '''', doneCh = make_chan 0,
      acquired = 1, released = 0,
      remove = \<lparr>buf = replicate 100 (identity obj1), cap = 100, closed = False, recvq = 0\<rparr>,
      errCh = \<lparr>buf = errs, cap = 1, closed = False, recvq = 0\<rparr>, objects = make_chan 1\<rparr>"

definition full_state :: "bool \<Rightarrow> RemoveObjectError list \<Rightarrow> pipeline" where
  "full_state c errs =
     \<lparr>workers = [full_worker errs], wg = 1, main = MWait, finished = make_chan 0,
      watchdog = WdSelect, timer = make_chan 1, minute_elapsed = False, console = [],
      stdout = [], ctx_done = c\<rparr>"

text \<open>
  The listing fails with a connection error and ends, the delete request ends with the
  same error, and the call returns.
\<close>

definition backend_down :: "event list" where
  "backend_down =
     [Worker 0 Start, Backend 0 (BList bad_entry), Backend 0 BCloseList,
      Backend 0 (BError \<lparr>ObjectName = '''', RemoveVersionID = '''',
                          RemoveErr = Some ''connection refused''\<rparr>),
      Backend 0 BCloseErr, Worker 0 RecvObject, Worker 0 RecvObject, Worker 0 RecvErr,
      MainReturn]"

text \<open>
  The listing is empty; after \<^verbatim>\<open>close(remove)\<close> the backend has two delete errors to
  report, and the call returns.
\<close>

definition two_residual_errors :: "event list" where
  "two_residual_errors =
     [Worker 0 Start, Backend 0 BCloseList, Worker 0 RecvObject, Backend 0 (BError err1),
      Backend 0 (BError err2), Worker 0 RecvErr, MainReturn]"

text \<open>The listing is empty, nothing fails, and the call returns.\<close>

definition clean_run :: "event list" where
  "clean_run =
     [Worker 0 Start, Backend 0 BCloseList, Worker 0 RecvObject, Backend 0 BCloseErr,
      Worker 0 RecvErr, MainReturn]"

text \<open>
  The only worker in the outer \<^verbatim>\<open>select\<close>, with the given listing entries pending, the
  listing closed or not, and the given delete errors pending.
\<close>

definition select_worker :: "ObjectInfo list \<Rightarrow> bool \<Rightarrow> RemoveObjectError list \<Rightarrow> worker" where
  "select_worker objs cl errs =
     \<lparr>pc = WSelect, bucket = ''b'', prefix = '''', doneCh = make_chan 0,
      acquired = 1, released = 0, remove = make_chan 100,
      errCh = \<lparr>buf = errs, cap = 1, closed = False, recvq = 0\<rparr>,
      objects = \<lparr>buf = objs, cap = 1, closed = cl, recvq = 0\<rparr>\<rparr>"

definition select_state :: "ObjectInfo list \<Rightarrow> bool \<Rightarrow> RemoveObjectError list \<Rightarrow> pipeline" where
  "select_state objs cl errs =
     \<lparr>workers = [select_worker objs cl errs], wg = 1, main = MWait, finished = make_chan 0,
      watchdog = WdSelect, timer = make_chan 1, minute_elapsed = False, console = [],
      stdout = [], ctx_done = False\<rparr>"

text \<open>The minute elapses while the only worker waits for a listing that does not come.\<close>

definition stalled :: "event list" where
  "stalled = [Worker 0 Start, TimerFires, WatchdogTimer, WatchdogDump]"

text \<open>
  The watchdog takes the timer case just before the last worker ends; the call returns
  before the watchdog writes.
\<close>

definition late_dump :: "event list" where
  "late_dump =
     [Worker 0 Start, Backend 0 BCloseList, Worker 0 RecvObject, Backend 0 BCloseErr,
      TimerFires, WatchdogTimer, Worker 0 RecvErr, MainReturn, WatchdogDump]"

section \<open>The clamp\<close>

lemma clamp_in_unit:
  "v \<noteq> NaN \<Longrightarrow> in_unit (math_Max (Num 0) (math_Min (Num 1) v))"
  by (cases v) (auto simp: math_Max_def math_Min_def in_unit_def fle_def IsInf_def IsNaN_def)

lemma clamp_negative_zero: "math_Max (Num 0) (math_Min (Num 1) NegZero) = Num 0"
  by (simp add: math_Max_def math_Min_def IsInf_def IsNaN_def)

lemma prepareProgress_ready:
  "PrepareProgress c = Some ch \<Longrightarrow> ready ch \<Longrightarrow>
   \<exists>ch'. prepareProgress c v =
     Returns (Some (math_Max (Num 0) (math_Min (Num 1) v)), c\<lparr>PrepareProgress := Some ch'\<rparr>)"
  by (auto simp: prepareProgress_def ready_def chansend_def Let_def)

section \<open>The invariants hold along every run\<close>

lemma worker_step_inv:
  "worker_inv w \<Longrightarrow> worker_step ev w = Some (w', out, d) \<Longrightarrow> worker_inv w'"
  by (auto simp: worker_inv_def worker_step_def deferred_close_def deferred_rest_def
      chansend_def chanrecv_def closechan_def make_chan_def Let_def
      split: wpc.splits wevent.splits recvd.splits sent.splits option.splits if_splits list.splits)

lemma worker_step_done:
  "worker_inv w \<Longrightarrow> worker_step ev w = Some (w', out, d) \<Longrightarrow>
   (d \<longrightarrow> pc w \<noteq> WExited \<and> pc w' = WExited) \<and> (\<not> d \<longrightarrow> pc w \<noteq> WExited \<and> pc w' \<noteq> WExited)"
  by (auto simp: worker_inv_def worker_step_def deferred_close_def deferred_rest_def
      chansend_def chanrecv_def closechan_def make_chan_def Let_def
      split: wpc.splits wevent.splits recvd.splits sent.splits option.splits if_splits list.splits)

lemma backend_step_inv:
  "worker_inv w \<Longrightarrow> backend_step ev w = Some w' \<Longrightarrow> worker_inv w' \<and> pc w' = pc w"
  by (auto simp: worker_inv_def backend_step_def closechan_def
      split: wpc.splits bevent.splits option.splits if_splits list.splits)

lemma active_update:
  "i < length ws \<Longrightarrow>
   active (ws[i := w]) =
     active ws + (if pc w = WExited then 0 else 1) - (if pc (ws ! i) = WExited then 0 else 1)"
  by (simp add: active_def map_update sum_list_update del: list_update.simps)

lemma active_pos: "i < length ws \<Longrightarrow> pc (ws ! i) \<noteq> WExited \<Longrightarrow> 0 < active ws"
proof (induction ws arbitrary: i)
  case Nil
  then show ?case by simp
next
  case (Cons a ws)
  then show ?case by (cases i) (auto simp: active_def)
qed


lemma not_crashed: "pipeline_inv s \<Longrightarrow> \<not> crashed s"
  by (auto simp: pipeline_inv_def crashed_def list_ex_iff list_all_iff worker_inv_def
      split: mpc.splits)

lemma list_all_update: "list_all P xs \<Longrightarrow> P x \<Longrightarrow> list_all P (xs[i := x])"
  by (auto simp: list_all_iff dest!: set_update_subset_insert [THEN subsetD])

lemma step_worker_inv:
  assumes "pipeline_inv s" and "step (Worker i ev) s = Some t"
  shows "pipeline_inv t"
proof -
  from assms have i: "i < length (workers s)"
    by (auto simp: step_def split: if_splits)
  let ?w = "workers s ! i"
  from assms i obtain w out d where ws: "worker_step ev ?w = Some (w, out, d)"
    and t: "t = s\<lparr>workers := (workers s)[i := w], console := console s @ out,
                  wg := (if d then wg s - 1 else wg s)\<rparr>"
    by (auto simp: step_def split: if_splits option.splits)
  from assms(1) i have wi: "worker_inv ?w"
    by (simp add: pipeline_inv_def list_all_length)
  from worker_step_inv [OF wi ws] have wi': "worker_inv w" .
  from worker_step_done [OF wi ws]
  have d: "(d \<longrightarrow> pc ?w \<noteq> WExited \<and> pc w = WExited) \<and>
           (\<not> d \<longrightarrow> pc ?w \<noteq> WExited \<and> pc w \<noteq> WExited)" .
  have all: "list_all worker_inv (workers t)"
    using assms(1) wi' by (simp add: t pipeline_inv_def list_all_update)
  have pos: "0 < active (workers s)"
    using d i active_pos [of i "workers s"] by auto
  have wg: "wg t = int (active (workers t))"
    using assms(1) d i pos by (cases d) (auto simp: t pipeline_inv_def active_update)
  have "main s = MWait"
    using assms(1) pos by (auto simp: pipeline_inv_def split: mpc.splits)
  then have "main t = MWait" "\<not> closed (finished t)" "buf (finished t) = []"
    using assms(1) by (auto simp: t pipeline_inv_def)
  with all wg show ?thesis by (simp add: pipeline_inv_def)
qed

lemma step_backend_inv:
  assumes "pipeline_inv s" and "step (Backend i ev) s = Some t"
  shows "pipeline_inv t"
proof -
  from assms have i: "i < length (workers s)"
    by (auto simp: step_def split: if_splits)
  let ?w = "workers s ! i"
  from assms i obtain w where ws: "backend_step ev ?w = Some w"
    and t: "t = s\<lparr>workers := (workers s)[i := w]\<rparr>"
    by (auto simp: step_def split: if_splits option.splits)
  from assms(1) i have wi: "worker_inv ?w"
    by (simp add: pipeline_inv_def list_all_length)
  from backend_step_inv [OF wi ws] have wi': "worker_inv w" and pc: "pc w = pc ?w" by auto
  have "active (workers t) = active (workers s)"
    using i pc active_pos [of i "workers s"] by (auto simp: t active_update)
  then show ?thesis
    using assms(1) wi' by (auto simp: t pipeline_inv_def list_all_update split: mpc.splits)
qed

lemma step_inv:
  assumes "pipeline_inv s" and "step e s = Some t"
  shows "pipeline_inv t"
proof (cases e)
  case (Worker i ev)
  with assms show ?thesis by (auto intro: step_worker_inv)
next
  case (Backend i ev)
  with assms show ?thesis by (auto intro: step_backend_inv)
qed (use assms in \<open>auto simp: step_def pipeline_inv_def closechan_def chansend_def chanrecv_def
      split: if_splits option.splits mpc.splits sent.splits recvd.splits list.splits\<close>)

lemma step_watchdog_inv:
  "watchdog_inv s \<Longrightarrow> step e s = Some t \<Longrightarrow> watchdog_inv t"
  by (cases e)
    (auto simp: step_def watchdog_inv_def closechan_def chansend_def chanrecv_def
      split: if_splits option.splits wdpc.splits sent.splits recvd.splits list.splits prod.splits)

lemma step_exited:
  "watchdog s = WdExited \<Longrightarrow> step e s = Some t \<Longrightarrow>
   watchdog t = WdExited \<and> stdout t = stdout s"
  by (cases e)
    (auto simp: step_def split: if_splits option.splits sent.splits recvd.splits prod.splits)

lemma run_exited:
  "watchdog s = WdExited \<Longrightarrow> run es s = Some t \<Longrightarrow>
   watchdog t = WdExited \<and> stdout t = stdout s"
proof (induction es arbitrary: s)
  case Nil
  then show ?case by simp
next
  case (Cons e es)
  from Cons.prems obtain u where u: "step e s = Some u" and r: "run es u = Some t"
    by (auto split: option.splits)
  from step_exited [OF Cons.prems(1) u] Cons.IH [OF _ r] show ?case by simp
qed

lemma run_inv: "pipeline_inv s \<Longrightarrow> run es s = Some t \<Longrightarrow> pipeline_inv t"
  by (induction es arbitrary: s) (auto split: option.splits dest: step_inv)

lemma run_watchdog_inv: "watchdog_inv s \<Longrightarrow> run es s = Some t \<Longrightarrow> watchdog_inv t"
  by (induction es arbitrary: s) (auto split: option.splits dest: step_watchdog_inv)

lemma init_inv: "pipeline_inv (deleteAllInBucket ctx b ps)"
  by (auto simp: deleteAllInBucket_def pipeline_inv_def Let_def list_all_iff worker_inv_def
      spawn_worker_def active_def make_chan_def comp_def sum_list_triv)

lemma init_watchdog_inv: "watchdog_inv (deleteAllInBucket ctx b ps)"
  by (simp add: deleteAllInBucket_def watchdog_inv_def Let_def make_chan_def)

lemma reachable_inv:
  "run sched (deleteAllInBucket ctx b ps) = Some s \<Longrightarrow> pipeline_inv s"
  using run_inv [OF init_inv] .

lemma reachable_watchdog_inv:
  "run sched (deleteAllInBucket ctx b ps) = Some s \<Longrightarrow> watchdog_inv s"
  using run_watchdog_inv [OF init_watchdog_inv] .

lemma reachable_worker_inv:
  "run sched (deleteAllInBucket ctx b ps) = Some s \<Longrightarrow> i < length (workers s) \<Longrightarrow>
   worker_inv (workers s ! i)"
  by (drule reachable_inv) (simp add: pipeline_inv_def list_all_length)

lemma step_Worker:
  "\<not> crashed s \<Longrightarrow> i < length (workers s) \<Longrightarrow>
   step (Worker i ev) s =
     (case worker_step ev (workers s ! i) of
        None \<Rightarrow> None
      | Some (w, out, d) \<Rightarrow>
          Some (s\<lparr>workers := (workers s)[i := w], console := console s @ out,
                  wg := (if d then wg s - 1 else wg s)\<rparr>))"
  by (simp add: step_def)

text \<open>The timer and the watchdog touch nothing but the timer, the watchdog and its output.\<close>

lemma timer_frame:
  "step TimerFires s = Some t \<Longrightarrow>
   workers t = workers s \<and> wg t = wg s \<and> main t = main s \<and>
   ctx_done t = ctx_done s \<and> console t = console s"
  by (auto simp: step_def split: if_splits sent.splits)

lemma watchdog_timer_frame:
  "step WatchdogTimer s = Some t \<Longrightarrow>
   workers t = workers s \<and> wg t = wg s \<and> main t = main s \<and>
   ctx_done t = ctx_done s \<and> console t = console s"
  by (auto simp: step_def split: if_splits recvd.splits)

lemma watchdog_dump_frame:
  "step WatchdogDump s = Some t \<Longrightarrow>
   workers t = workers s \<and> wg t = wg s \<and> main t = main s \<and>
   ctx_done t = ctx_done s \<and> console t = console s"
  by (auto simp: step_def split: if_splits)

lemma watchdog_finished_frame:
  "step WatchdogFinished s = Some t \<Longrightarrow>
   workers t = workers s \<and> wg t = wg s \<and> main t = main s \<and>
   ctx_done t = ctx_done s \<and> console t = console s"
  by (auto simp: step_def split: if_splits recvd.splits)

text \<open>
  While \<^verbatim>\<open>finished\<close> is open the watchdog cannot leave through the finished case: a
  watchdog that has returned without a snapshot has seen \<^verbatim>\<open>finished\<close> closed.
\<close>

lemma step_quiet_exit:
  assumes "pipeline_inv s"
    and "watchdog s = WdExited \<and> stdout s = [] \<longrightarrow> closed (finished s)"
    and "step e s = Some t"
  shows "watchdog t = WdExited \<and> stdout t = [] \<longrightarrow> closed (finished t)"
proof (cases e)
  case (Worker i ev)
  with assms(3) have "watchdog t = watchdog s \<and> stdout t = stdout s \<and> finished t = finished s"
    by (auto simp: step_def split: if_splits option.splits prod.splits)
  with assms(2) show ?thesis by simp
next
  case (Backend i ev)
  with assms(3) have "watchdog t = watchdog s \<and> stdout t = stdout s \<and> finished t = finished s"
    by (auto simp: step_def split: if_splits option.splits)
  with assms(2) show ?thesis by simp
next
  case MainReturn
  with assms(2,3) show ?thesis
    by (auto simp: step_def closechan_def split: if_splits)
next
  case TimerFires
  with assms(2,3) show ?thesis
    by (auto simp: step_def split: if_splits sent.splits)
next
  case WatchdogTimer
  with assms(3) show ?thesis
    by (auto simp: step_def split: if_splits recvd.splits)
next
  case WatchdogDump
  with assms(3) show ?thesis
    by (auto simp: step_def split: if_splits)
next
  case WatchdogFinished
  with assms(1,3) show ?thesis
    by (auto simp: step_def pipeline_inv_def chanrecv_def split: if_splits list.splits)
next
  case Cancel
  with assms(2,3) show ?thesis
    by (auto simp: step_def split: if_splits)
qed

lemma run_quiet_exit:
  "pipeline_inv s \<Longrightarrow> (watchdog s = WdExited \<and> stdout s = [] \<longrightarrow> closed (finished s)) \<Longrightarrow>
   run es s = Some t \<Longrightarrow> (watchdog t = WdExited \<and> stdout t = [] \<longrightarrow> closed (finished t))"
proof (induction es arbitrary: s)
  case Nil
  then show ?case by simp
next
  case (Cons e es)
  from Cons.prems(3) obtain u where u: "step e s = Some u" and r: "run es u = Some t"
    by (auto split: option.splits)
  from step_inv [OF Cons.prems(1) u] step_quiet_exit [OF Cons.prems(1,2) u] r
  show ?case by (rule Cons.IH)
qed

lemma reachable_quiet_exit:
  assumes "run sched (deleteAllInBucket ctx b ps) = Some s"
  shows "watchdog s = WdExited \<and> stdout s = [] \<longrightarrow> closed (finished s)"
proof -
  have "watchdog (deleteAllInBucket ctx b ps) = WdExited \<and>
        stdout (deleteAllInBucket ctx b ps) = [] \<longrightarrow>
        closed (finished (deleteAllInBucket ctx b ps))"
    by (simp add: deleteAllInBucket_def Let_def)
  from run_quiet_exit [OF init_inv this assms] show ?thesis .
qed

section \<open>The inner send loop\<close>

text \<open>
  C1. In a run of \<^verbatim>\<open>deleteAllInBucket\<close>, take a worker in the inner \<^verbatim>\<open>select\<close> of
  line 134 with the identity of \<open>obj\<close> to send. When the send on \<^verbatim>\<open>remove\<close> cannot
  proceed and the completion channel has a value, the send step is not taken and the
  receive step is: the value is reported with \<^verbatim>\<open>console.Error\<close> and the worker stays in
  the loop with the same \<open>obj\<close>, so the send is tried again. Every step of the worker
  that leaves the loop is the send, which succeeds and puts the identity on \<^verbatim>\<open>remove\<close>
  and leads back to the outer \<^verbatim>\<open>select\<close>. The worker is parked exactly when neither the
  send nor the receive can proceed: a full queue alone never keeps a pending completion
  from being taken.
\<close>

theorem sendNext_yields_then_retries:
  assumes "run sched (deleteAllInBucket ctx b ps) = Some s"
    and "i < length (workers s)"
    and "pc (workers s ! i) = WSendNext obj"
  shows "(\<forall>err ok c.
            chansend (remove (workers s ! i)) (identity obj) = SendBlocked \<and>
            chanrecv zeroRemoveObjectError (errCh (workers s ! i)) = Recv err ok c \<longrightarrow>
            step (Worker i SendRemove) s = None \<and>
            step (Worker i RecvErr) s =
              Some (s\<lparr>workers := (workers s)[i := (workers s ! i)\<lparr>errCh := c\<rparr>],
                      console := console s @ [LogRemoveErr err]\<rparr>)) \<and>
         (\<forall>ev t. step (Worker i ev) s = Some t \<and> pc (workers t ! i) \<noteq> WSendNext obj \<longrightarrow>
            ev = SendRemove \<and> pc (workers t ! i) = WSelect \<and>
            chansend (remove (workers s ! i)) (identity obj) = Sent (remove (workers t ! i)) \<and>
            console t = console s) \<and>
         ((\<forall>ev. step (Worker i ev) s = None) \<longleftrightarrow>
            chansend (remove (workers s ! i)) (identity obj) = SendBlocked \<and>
            chanrecv zeroRemoveObjectError (errCh (workers s ! i)) = RecvBlocked)"
proof -
  let ?w = "workers s ! i"
  have nc: "\<not> crashed s"
    using assms(1) by (intro not_crashed reachable_inv)
  have open_remove: "\<not> closed (remove ?w)"
    using reachable_worker_inv [OF assms(1,2)] assms(3) by (simp add: worker_inv_def)
  note st = step_Worker [OF nc assms(2)]
  have a: "\<forall>err ok c.
            chansend (remove ?w) (identity obj) = SendBlocked \<and>
            chanrecv zeroRemoveObjectError (errCh ?w) = Recv err ok c \<longrightarrow>
            step (Worker i SendRemove) s = None \<and>
            step (Worker i RecvErr) s =
              Some (s\<lparr>workers := (workers s)[i := ?w\<lparr>errCh := c\<rparr>],
                      console := console s @ [LogRemoveErr err]\<rparr>)"
    using assms(3) by (simp add: st worker_step_def)
  have b: "\<forall>ev t. step (Worker i ev) s = Some t \<and> pc (workers t ! i) \<noteq> WSendNext obj \<longrightarrow>
            ev = SendRemove \<and> pc (workers t ! i) = WSelect \<and>
            chansend (remove ?w) (identity obj) = Sent (remove (workers t ! i)) \<and>
            console t = console s"
  proof (intro allI impI)
    fix ev t
    assume h: "step (Worker i ev) s = Some t \<and> pc (workers t ! i) \<noteq> WSendNext obj"
    show "ev = SendRemove \<and> pc (workers t ! i) = WSelect \<and>
            chansend (remove ?w) (identity obj) = Sent (remove (workers t ! i)) \<and>
            console t = console s"
      using h assms(2,3) open_remove
      by (cases ev)
        (auto simp: st worker_step_def chansend_def
          split: recvd.splits sent.splits if_splits)
  qed
  have c: "(\<forall>ev. step (Worker i ev) s = None) \<longleftrightarrow>
            chansend (remove ?w) (identity obj) = SendBlocked \<and>
            chanrecv zeroRemoveObjectError (errCh ?w) = RecvBlocked"
  proof
    assume all: "\<forall>ev. step (Worker i ev) s = None"
    from all [rule_format, of SendRemove] all [rule_format, of RecvErr]
    show "chansend (remove ?w) (identity obj) = SendBlocked \<and>
            chanrecv zeroRemoveObjectError (errCh ?w) = RecvBlocked"
      using assms(3) by (auto simp: st worker_step_def split: recvd.splits sent.splits)
  next
    assume blocked: "chansend (remove ?w) (identity obj) = SendBlocked \<and>
            chanrecv zeroRemoveObjectError (errCh ?w) = RecvBlocked"
    show "\<forall>ev. step (Worker i ev) s = None"
    proof
      fix ev
      show "step (Worker i ev) s = None"
        using blocked assms(3) by (cases ev) (simp_all add: st worker_step_def)
    qed
  qed
  from a b c show ?thesis by blast
qed

text \<open>
  The queue holds 100 identities, the worker stands in the loop with one more, and the
  backend reports a delete error: the send step cannot be taken, the receive step logs
  the error and leaves the worker in the loop.
\<close>

theorem sendNext_yields_then_retries_witness:
  "run (fill_queue @ [Backend 0 (BError err1)]) (deleteAllInBucket False ''b'' []) =
     Some (full_state False [err1]) \<and>
   step (Worker 0 SendRemove) (full_state False [err1]) = None \<and>
   step (Worker 0 RecvErr) (full_state False [err1]) =
     Some ((full_state False [])\<lparr>console := [LogRemoveErr err1]\<rparr>)"
proof -
  have r: "run (fill_queue @ [Backend 0 (BError err1)]) (deleteAllInBucket False ''b'' []) =
     Some (full_state False [err1])"
    by code_simp
  have i: "0 < length (workers (full_state False [err1]))"
    by (simp add: full_state_def)
  have p: "pc (workers (full_state False [err1]) ! 0) = WSendNext obj1"
    by (simp add: full_state_def full_worker_def)
  have sb: "chansend (remove (workers (full_state False [err1]) ! 0)) (identity obj1) = SendBlocked"
    by (simp add: full_state_def full_worker_def chansend_def)
  have rv: "chanrecv zeroRemoveObjectError (errCh (workers (full_state False [err1]) ! 0)) =
      Recv err1 True \<lparr>buf = [], cap = 1, closed = False, recvq = 0\<rparr>"
    by (simp add: full_state_def full_worker_def chanrecv_def)
  from sendNext_yields_then_retries [OF r i p] sb rv
  have "step (Worker 0 SendRemove) (full_state False [err1]) = None \<and>
        step (Worker 0 RecvErr) (full_state False [err1]) =
          Some ((full_state False [err1])
            \<lparr>workers := (workers (full_state False [err1]))
               [0 := (workers (full_state False [err1]) ! 0)
                  \<lparr>errCh := \<lparr>buf = [], cap = 1, closed = False, recvq = 0\<rparr>\<rparr>],
             console := console (full_state False [err1]) @ [LogRemoveErr err1]\<rparr>)"
    by blast
  then show ?thesis
    using r by (simp add: full_state_def full_worker_def)
qed

section \<open>The progress reporter\<close>

text \<open>
  C2. With a configured and ready sink, \<^verbatim>\<open>prepareProgress\<close> delivers
  \<^verbatim>\<open>math.Max(0, math.Min(1, v))\<close> (lemma \<open>prepareProgress_ready\<close>), and that value lies
  in \<open>[0,1]\<close> for every \<open>v\<close> but NaN (lemma \<open>clamp_in_unit\<close>). At NaN both
  \<^verbatim>\<open>math.Min\<close> and \<^verbatim>\<open>math.Max\<close> return NaN: the sample delivered to a ready sink is
  NaN, which is not in \<open>[0,1]\<close>.
\<close>

theorem prepareProgress_NaN:
  "ready (make_chan 1 :: float64 chan) \<and>
   prepareProgress \<lparr>PrepareProgress = Some (make_chan 1)\<rparr> NaN =
     Returns (Some NaN, \<lparr>PrepareProgress = Some ((make_chan 1)\<lparr>buf := [NaN]\<rparr>)\<rparr>) \<and>
   \<not> in_unit NaN"
  by (simp add: prepareProgress_def ready_def chansend_def make_chan_def Let_def
      math_Max_def math_Min_def IsInf_def IsNaN_def in_unit_def fle_def)

text \<open>
  C4. \<^verbatim>\<open>prepareProgress\<close> never blocks, whatever the sample and the sink. With no sink
  (a nil channel), and with an open sink that cannot take a value now (no receiver
  waits and the buffer has no room), it returns, nothing is delivered and the
  configuration with its channel is as before: the sample is gone, nothing is queued
  and nothing is retried. (The one other outcome is the panic of a send on a closed
  channel.)
\<close>

theorem prepareProgress_never_blocks:
  "prepareProgress c v \<noteq> Blocks \<and>
   (PrepareProgress c = None \<longrightarrow> prepareProgress c v = Returns (None, c)) \<and>
   (\<forall>ch. PrepareProgress c = Some ch \<and> \<not> closed ch \<and> \<not> ready ch \<longrightarrow>
      prepareProgress c v = Returns (None, c)) \<and>
   (\<forall>ch. PrepareProgress c = Some ch \<and> closed ch \<longrightarrow> prepareProgress c v = Panics)"
  by (auto simp: prepareProgress_def ready_def chansend_def Let_def split: option.splits)

text \<open>No sink, and an unbuffered sink with no receiver: the sample 2 is dropped.\<close>

theorem prepareProgress_never_blocks_witness:
  "prepareProgress \<lparr>PrepareProgress = None\<rparr> (Num 2) =
     Returns (None, \<lparr>PrepareProgress = None\<rparr>) \<and>
   prepareProgress \<lparr>PrepareProgress = Some (make_chan 0)\<rparr> (Num 2) =
     Returns (None, \<lparr>PrepareProgress = Some (make_chan 0)\<rparr>) \<and>
   prepareProgress \<lparr>PrepareProgress = Some (make_chan 0)\<rparr> (Num 2) \<noteq> Blocks"
  using prepareProgress_never_blocks [of "\<lparr>PrepareProgress = None\<rparr>" "Num 2"]
    prepareProgress_never_blocks [of "\<lparr>PrepareProgress = Some (make_chan 0)\<rparr>" "Num 2"]
  by (simp add: ready_def make_chan_def)

section \<open>The default prefix\<close>

text \<open>
  C3. Called with no prefix, \<^verbatim>\<open>deleteAllInBucket\<close> spawns what it spawns for the single
  prefix \<open>''''\<close>: one worker, not yet started, listing the whole bucket. The two calls
  start from the same state, so they have the same runs: every schedule gives both the
  same result.
\<close>

theorem deleteAllInBucket_no_prefix:
  "deleteAllInBucket ctx b [] = deleteAllInBucket ctx b [''''] \<and>
   map prefix (workers (deleteAllInBucket ctx b [])) = [''''] \<and>
   map pc (workers (deleteAllInBucket ctx b [])) = [WStart] \<and>
   run sched (deleteAllInBucket ctx b []) = run sched (deleteAllInBucket ctx b [''''])"
  by (simp add: deleteAllInBucket_def spawn_worker_def)

section \<open>Cancellation\<close>

text \<open>
  C5, as stated, fails. The context is cancelled while the worker stands in the inner
  \<^verbatim>\<open>select\<close> with a full queue and no completion pending: the worker is parked, and
  stays so until the backend acts.
\<close>

theorem cancel_not_observed_counterexample:
  "run (fill_queue @ [Cancel]) (deleteAllInBucket False ''b'' []) = Some (full_state True []) \<and>
   ctx_done (full_state True []) \<and>
   pc (workers (full_state True []) ! 0) = WSendNext obj1 \<and>
   worker_blocked (workers (full_state True []) ! 0) \<and>
   step (Worker 0 Start) (full_state True []) = None \<and>
   step (Worker 0 RecvObject) (full_state True []) = None \<and>
   step (Worker 0 RecvErr) (full_state True []) = None \<and>
   step (Worker 0 SendRemove) (full_state True []) = None"
proof -
  have "run (fill_queue @ [Cancel]) (deleteAllInBucket False ''b'' []) = Some (full_state True [])"
    by code_simp
  moreover have "worker_blocked (workers (full_state True []) ! 0)"
    by code_simp
  moreover have "step (Worker 0 Start) (full_state True []) = None"
    "step (Worker 0 RecvObject) (full_state True []) = None"
    "step (Worker 0 RecvErr) (full_state True []) = None"
    "step (Worker 0 SendRemove) (full_state True []) = None"
    by code_simp+
  ultimately show ?thesis
    by (simp add: full_state_def full_worker_def)
qed

text \<open>
  C5, amended. No wait of a worker observes the context, which is only handed to
  \<^verbatim>\<open>cl.RemoveObjects\<close> and \<^verbatim>\<open>cl.ListObjects\<close>. A step of a worker is the same whether
  the context is cancelled or not, and a worker is parked exactly when its channels let
  it: in the outer \<^verbatim>\<open>select\<close> when neither the listing nor the completion channel has
  something, in the inner one when the queue is full and the completion channel has
  nothing, in the deferred receive when the completion channel has nothing. A worker
  leaves the outer \<^verbatim>\<open>select\<close> for its deferred calls when the listing channel is closed
  and drained.
\<close>

theorem waits_ignore_ctx:
  "step (Worker i ev) (s\<lparr>ctx_done := c\<rparr>) =
     map_option (ctx_done_update (\<lambda>_. c)) (step (Worker i ev) s) \<and>
   worker_blocked w =
     (case pc w of
        WStart \<Rightarrow> False
      | WSelect \<Rightarrow>
          chanrecv zeroObjectInfo (objects w) = RecvBlocked \<and>
          chanrecv zeroRemoveObjectError (errCh w) = RecvBlocked
      | WSendNext obj \<Rightarrow>
          chansend (remove w) (identity obj) = SendBlocked \<and>
          chanrecv zeroRemoveObjectError (errCh w) = RecvBlocked
      | WDeferWait \<Rightarrow> chanrecv zeroRemoveObjectError (errCh w) = RecvBlocked
      | WExited \<Rightarrow> True
      | WPanicked \<Rightarrow> True) \<and>
   (pc w = WSelect \<and> buf (objects w) = [] \<and> closed (objects w) \<and> \<not> closed (remove w) \<longrightarrow>
      worker_step RecvObject w =
        Some (w\<lparr>remove := (remove w)\<lparr>closed := True\<rparr>, pc := WDeferWait\<rparr>, [], False))"
proof -
  have a: "step (Worker i ev) (s\<lparr>ctx_done := c\<rparr>) =
     map_option (ctx_done_update (\<lambda>_. c)) (step (Worker i ev) s)"
    by (simp add: step_def crashed_def split: option.splits)
  have b: "worker_blocked w =
     (case pc w of
        WStart \<Rightarrow> False
      | WSelect \<Rightarrow>
          chanrecv zeroObjectInfo (objects w) = RecvBlocked \<and>
          chanrecv zeroRemoveObjectError (errCh w) = RecvBlocked
      | WSendNext obj \<Rightarrow>
          chansend (remove w) (identity obj) = SendBlocked \<and>
          chanrecv zeroRemoveObjectError (errCh w) = RecvBlocked
      | WDeferWait \<Rightarrow> chanrecv zeroRemoveObjectError (errCh w) = RecvBlocked
      | WExited \<Rightarrow> True
      | WPanicked \<Rightarrow> True)"
    by (cases "pc w")
      (auto simp: worker_blocked_def worker_step_def
        split: recvd.splits sent.splits option.splits)
  have c: "pc w = WSelect \<and> buf (objects w) = [] \<and> closed (objects w) \<and> \<not> closed (remove w) \<longrightarrow>
      worker_step RecvObject w =
        Some (w\<lparr>remove := (remove w)\<lparr>closed := True\<rparr>, pc := WDeferWait\<rparr>, [], False)"
    by (simp add: worker_step_def chanrecv_def deferred_close_def closechan_def)
  from a b c show ?thesis by blast
qed

text \<open>
  With the queue full and nothing pending the worker is parked, cancelled or not; with
  the listing closed and drained the worker in the outer \<^verbatim>\<open>select\<close> closes
  \<^verbatim>\<open>remove\<close> and goes to the deferred receive.
\<close>

theorem waits_ignore_ctx_witness:
  "worker_blocked (full_worker []) \<and>
   step (Worker 0 SendRemove) (full_state True []) = None \<and>
   step (Worker 0 SendRemove) (full_state False []) = None \<and>
   worker_step RecvObject (select_worker [] True []) =
     Some ((select_worker [] True [])
             \<lparr>remove := (remove (select_worker [] True []))\<lparr>closed := True\<rparr>, pc := WDeferWait\<rparr>,
           [], False)"
proof -
  have "full_state True [] = (full_state False [])\<lparr>ctx_done := True\<rparr>"
    by (simp add: full_state_def)
  moreover have "step (Worker 0 SendRemove) (full_state False []) = None"
    by code_simp
  moreover have "chansend (remove (full_worker [])) (identity obj1) = SendBlocked"
    "chanrecv zeroRemoveObjectError (errCh (full_worker [])) = RecvBlocked"
    by (simp_all add: full_worker_def chansend_def chanrecv_def)
  moreover have "pc (select_worker [] True []) = WSelect \<and>
      buf (objects (select_worker [] True [])) = [] \<and>
      closed (objects (select_worker [] True [])) \<and>
      \<not> closed (remove (select_worker [] True []))"
    by (simp add: select_worker_def make_chan_def)
  ultimately show ?thesis
    using waits_ignore_ctx [where i = 0 and ev = SendRemove and s = "full_state False []"
        and c = True and w = "full_worker []"]
      waits_ignore_ctx [where i = 0 and ev = SendRemove and s = "full_state False []"
        and c = True and w = "select_worker [] True []"]
    by (simp add: full_worker_def)
qed

section \<open>Backend errors\<close>

text \<open>
  C6, as stated, fails. The listing fails with a connection error and the delete request
  ends with the same error: the call returns as after any run, and the two errors are on
  the console only.
\<close>

theorem backend_error_not_propagated_counterexample:
  "map_option call_outcome (run backend_down (deleteAllInBucket False ''b'' [])) = Some Returned \<and>
   map_option console (run backend_down (deleteAllInBucket False ''b'' [])) =
     Some [LogErr ''connection refused'', LogErr ''connection refused''] \<and>
   map_option call_outcome (run clean_run (deleteAllInBucket False ''b'' [])) = Some Returned"
  by code_simp

text \<open>
  C6, amended. \<^verbatim>\<open>deleteAllInBucket\<close> has no result and never panics: in every run the
  call is pending or has returned. An error of the backend, fatal or not, reaches the
  diagnostic sink only: a listing entry with an error is passed to \<^verbatim>\<open>console.Error\<close> and
  the worker stays in its loop; a value of the completion channel is passed to
  \<^verbatim>\<open>console.Error\<close> and the worker stays where it is; the error received by the deferred
  function is passed to \<^verbatim>\<open>console.Error\<close> and the worker ends as it does without error.
\<close>

theorem backend_errors_reach_console_only:
  assumes "run sched (deleteAllInBucket ctx b ps) = Some s"
  shows "call_outcome s \<noteq> Crashed \<and>
         (\<forall>i obj e c.
            i < length (workers s) \<and> pc (workers s ! i) = WSelect \<and>
            chanrecv zeroObjectInfo (objects (workers s ! i)) = Recv obj True c \<and>
            Err obj = Some e \<longrightarrow>
            step (Worker i RecvObject) s =
              Some (s\<lparr>workers := (workers s)[i := (workers s ! i)\<lparr>objects := c\<rparr>],
                      console := console s @ [LogErr e]\<rparr>)) \<and>
         (\<forall>i err ok c.
            i < length (workers s) \<and>
            (pc (workers s ! i) = WSelect \<or> (\<exists>obj. pc (workers s ! i) = WSendNext obj)) \<and>
            chanrecv zeroRemoveObjectError (errCh (workers s ! i)) = Recv err ok c \<longrightarrow>
            step (Worker i RecvErr) s =
              Some (s\<lparr>workers := (workers s)[i := (workers s ! i)\<lparr>errCh := c\<rparr>],
                      console := console s @ [LogRemoveErr err]\<rparr>)) \<and>
         (\<forall>i err ok c e.
            i < length (workers s) \<and> pc (workers s ! i) = WDeferWait \<and>
            chanrecv zeroRemoveObjectError (errCh (workers s ! i)) = Recv err ok c \<and>
            RemoveErr err = Some e \<longrightarrow>
            (\<exists>t. step (Worker i RecvErr) s = Some t \<and> console t = console s @ [LogErr e] \<and>
                 pc (workers t ! i) = WExited \<and> call_outcome t \<noteq> Crashed))"
proof -
  have inv: "pipeline_inv s"
    using assms by (rule reachable_inv)
  then have nc: "\<not> crashed s"
    by (rule not_crashed)
  have a: "call_outcome s \<noteq> Crashed"
    using nc by (simp add: call_outcome_def)
  have b: "\<forall>i obj e c.
            i < length (workers s) \<and> pc (workers s ! i) = WSelect \<and>
            chanrecv zeroObjectInfo (objects (workers s ! i)) = Recv obj True c \<and>
            Err obj = Some e \<longrightarrow>
            step (Worker i RecvObject) s =
              Some (s\<lparr>workers := (workers s)[i := (workers s ! i)\<lparr>objects := c\<rparr>],
                      console := console s @ [LogErr e]\<rparr>)"
    using nc by (simp add: step_Worker worker_step_def)
  have c: "\<forall>i err ok c.
            i < length (workers s) \<and>
            (pc (workers s ! i) = WSelect \<or> (\<exists>obj. pc (workers s ! i) = WSendNext obj)) \<and>
            chanrecv zeroRemoveObjectError (errCh (workers s ! i)) = Recv err ok c \<longrightarrow>
            step (Worker i RecvErr) s =
              Some (s\<lparr>workers := (workers s)[i := (workers s ! i)\<lparr>errCh := c\<rparr>],
                      console := console s @ [LogRemoveErr err]\<rparr>)"
    using nc by (auto simp: step_Worker worker_step_def)
  have d: "\<forall>i err ok c e.
            i < length (workers s) \<and> pc (workers s ! i) = WDeferWait \<and>
            chanrecv zeroRemoveObjectError (errCh (workers s ! i)) = Recv err ok c \<and>
            RemoveErr err = Some e \<longrightarrow>
            (\<exists>t. step (Worker i RecvErr) s = Some t \<and> console t = console s @ [LogErr e] \<and>
                 pc (workers t ! i) = WExited \<and> call_outcome t \<noteq> Crashed)"
  proof (intro allI impI)
    fix i err ok c e
    assume h: "i < length (workers s) \<and> pc (workers s ! i) = WDeferWait \<and>
            chanrecv zeroRemoveObjectError (errCh (workers s ! i)) = Recv err ok c \<and>
            RemoveErr err = Some e"
    let ?w = "workers s ! i"
    from h inv have wi: "worker_inv ?w"
      by (simp add: pipeline_inv_def list_all_length)
    with h have od: "\<not> closed (doneCh ?w)"
      by (simp add: worker_inv_def)
    from h od nc obtain t where t: "step (Worker i RecvErr) s = Some t"
      and con: "console t = console s @ [LogErr e]" and p: "pc (workers t ! i) = WExited"
      by (auto simp: step_Worker worker_step_def deferred_rest_def closechan_def Let_def)
    from step_inv [OF inv t] have "\<not> crashed t"
      by (rule not_crashed)
    then have "call_outcome t \<noteq> Crashed"
      by (simp add: call_outcome_def)
    with t con p
    show "\<exists>t. step (Worker i RecvErr) s = Some t \<and> console t = console s @ [LogErr e] \<and>
                 pc (workers t ! i) = WExited \<and> call_outcome t \<noteq> Crashed"
      by blast
  qed
  from a b c d show ?thesis by blast
qed

text \<open>
  The listing has offered an entry that carries a connection error: the worker logs it
  and stays in the outer \<^verbatim>\<open>select\<close>; the call is pending.
\<close>

theorem backend_errors_reach_console_only_witness:
  "run [Worker 0 Start, Backend 0 (BList bad_entry)] (deleteAllInBucket False ''b'' []) =
     Some (select_state [bad_entry] False []) \<and>
   call_outcome (select_state [bad_entry] False []) = Pending \<and>
   step (Worker 0 RecvObject) (select_state [bad_entry] False []) =
     Some ((select_state [] False [])\<lparr>console := [LogErr ''connection refused'']\<rparr>)"
proof -
  let ?s = "select_state [bad_entry] False []"
  have r: "run [Worker 0 Start, Backend 0 (BList bad_entry)] (deleteAllInBucket False ''b'' []) =
     Some ?s"
    by code_simp
  have rv: "0 < length (workers ?s) \<and> pc (workers ?s ! 0) = WSelect \<and>
     chanrecv zeroObjectInfo (objects (workers ?s ! 0)) =
       Recv bad_entry True \<lparr>buf = [], cap = 1, closed = False, recvq = 0\<rparr> \<and>
     Err bad_entry = Some ''connection refused''"
    by (simp add: select_state_def select_worker_def chanrecv_def bad_entry_def)
  from backend_errors_reach_console_only [OF r] rv
  have "call_outcome ?s \<noteq> Crashed \<and>
        step (Worker 0 RecvObject) ?s =
          Some (?s\<lparr>workers := (workers ?s)
                   [0 := (workers ?s ! 0)\<lparr>objects := \<lparr>buf = [], cap = 1, closed = False, recvq = 0\<rparr>\<rparr>],
                   console := console ?s @ [LogErr ''connection refused'']\<rparr>)"
    by blast
  moreover have "call_outcome ?s = Pending"
    by code_simp
  ultimately show ?thesis
    using r by (simp add: select_state_def select_worker_def)
qed

section \<open>Listing exhaustion\<close>

text \<open>
  C7. When the listing is exhausted the worker closes \<^verbatim>\<open>remove\<close> and then receives from
  the completion channel once. With two delete errors to come after the close, the
  worker reports the first and ends: the second stays on the channel, unreported, the
  channel has not signalled its end, and the call returns.
\<close>

theorem deferred_receive_takes_one_value:
  "map_option console (run two_residual_errors (deleteAllInBucket False ''b'' [])) =
     Some [LogErr ''access denied''] \<and>
   map_option (map pc \<circ> workers) (run two_residual_errors (deleteAllInBucket False ''b'' [])) =
     Some [WExited] \<and>
   map_option (map (buf \<circ> errCh) \<circ> workers)
       (run two_residual_errors (deleteAllInBucket False ''b'' [])) = Some [[err2]] \<and>
   map_option (map (closed \<circ> errCh) \<circ> workers)
       (run two_residual_errors (deleteAllInBucket False ''b'' [])) = Some [False] \<and>
   map_option (map (closed \<circ> remove) \<circ> workers)
       (run two_residual_errors (deleteAllInBucket False ''b'' [])) = Some [True] \<and>
   map_option main (run two_residual_errors (deleteAllInBucket False ''b'' [])) = Some MReturned"
  by code_simp

section \<open>The stall watchdog\<close>

text \<open>
  C8, as stated, fails. The minute elapses while the only worker waits for the listing:
  the watchdog writes one snapshot and returns. The stall persists (the caller is still
  in \<^verbatim>\<open>wg.Wait()\<close>, the worker still in its \<^verbatim>\<open>select\<close>), and neither the timer nor
  the watchdog has a step left: no further snapshot comes.
\<close>

theorem watchdog_not_periodic_counterexample:
  "map_option stdout (run stalled (deleteAllInBucket False ''b'' [])) =
     Some [\<lparr>snap_main = MWait, snap_workers = [WSelect]\<rparr>] \<and>
   map_option main (run stalled (deleteAllInBucket False ''b'' [])) = Some MWait \<and>
   map_option watchdog (run stalled (deleteAllInBucket False ''b'' [])) = Some WdExited \<and>
   run (stalled @ [TimerFires]) (deleteAllInBucket False ''b'' []) = None \<and>
   run (stalled @ [WatchdogTimer]) (deleteAllInBucket False ''b'' []) = None \<and>
   run (stalled @ [WatchdogDump]) (deleteAllInBucket False ''b'' []) = None \<and>
   run (stalled @ [WatchdogFinished]) (deleteAllInBucket False ''b'' []) = None"
  by code_simp

text \<open>
  C8, amended. For the whole call a parallel watchdog waits for the one-minute timer or
  the finished signal: while the call is running the finished case cannot be taken, and
  before the minute has elapsed the watchdog stands in its \<^verbatim>\<open>select\<close> with no step to
  take and nothing written. Once the minute has elapsed, the watchdog in its
  \<^verbatim>\<open>select\<close> takes the timer case, and then it writes one snapshot of where every
  goroutine of the call stands and returns: a watchdog that has returned while the call
  is running has written exactly one snapshot, and there is one snapshot per call at
  most, none periodically. No step of the timer or the watchdog changes a worker, the
  wait group, the caller's goroutine, the context or the console: the watchdog aborts
  and cancels nothing.
\<close>

theorem watchdog_observes_once:
  assumes "run sched (deleteAllInBucket ctx b ps) = Some s"
  shows "length (stdout s) \<le> 1 \<and>
         (main s = MWait \<longrightarrow> step WatchdogFinished s = None) \<and>
         (main s = MWait \<and> \<not> minute_elapsed s \<longrightarrow>
            watchdog s = WdSelect \<and> stdout s = [] \<and>
            step WatchdogTimer s = None \<and> step WatchdogDump s = None) \<and>
         (watchdog s = WdSelect \<and> minute_elapsed s \<longrightarrow>
            step WatchdogTimer s =
              Some (s\<lparr>timer := (timer s)\<lparr>buf := tl (buf (timer s))\<rparr>, watchdog := WdDump\<rparr>)) \<and>
         (watchdog s = WdDump \<longrightarrow>
            step WatchdogDump s =
              Some (s\<lparr>stdout := [\<lparr>snap_main = main s, snap_workers = map pc (workers s)\<rparr>],
                      watchdog := WdExited\<rparr>)) \<and>
         (watchdog s = WdExited \<longrightarrow>
            step WatchdogTimer s = None \<and> step WatchdogDump s = None \<and>
            step WatchdogFinished s = None) \<and>
         (main s = MWait \<and> watchdog s = WdExited \<longrightarrow> length (stdout s) = 1) \<and>
         (\<forall>e t. (e = TimerFires \<or> e = WatchdogTimer \<or> e = WatchdogDump \<or> e = WatchdogFinished) \<and>
            step e s = Some t \<longrightarrow>
            workers t = workers s \<and> wg t = wg s \<and> main t = main s \<and>
            ctx_done t = ctx_done s \<and> console t = console s)"
proof -
  have inv: "pipeline_inv s"
    using assms by (rule reachable_inv)
  then have nc: "\<not> crashed s"
    by (rule not_crashed)
  have wd: "watchdog_inv s"
    using assms by (rule reachable_watchdog_inv)
  have q: "watchdog s = WdExited \<and> stdout s = [] \<longrightarrow> closed (finished s)"
    using assms by (rule reachable_quiet_exit)
  have fin: "main s = MWait \<longrightarrow> \<not> closed (finished s) \<and> buf (finished s) = []"
    using inv by (auto simp: pipeline_inv_def)
  have a: "length (stdout s) \<le> 1"
    using wd by (auto simp: watchdog_inv_def split: wdpc.splits)
  have f: "main s = MWait \<longrightarrow> step WatchdogFinished s = None"
    using fin by (simp add: step_def chanrecv_def)
  have sel: "main s = MWait \<and> \<not> minute_elapsed s \<longrightarrow> watchdog s = WdSelect"
    using wd q fin by (cases "watchdog s") (auto simp: watchdog_inv_def)
  have g: "main s = MWait \<and> \<not> minute_elapsed s \<longrightarrow>
            watchdog s = WdSelect \<and> stdout s = [] \<and>
            step WatchdogTimer s = None \<and> step WatchdogDump s = None"
    using sel wd by (auto simp: watchdog_inv_def step_def chanrecv_def)
  have b: "watchdog s = WdSelect \<and> minute_elapsed s \<longrightarrow>
            step WatchdogTimer s =
              Some (s\<lparr>timer := (timer s)\<lparr>buf := tl (buf (timer s))\<rparr>, watchdog := WdDump\<rparr>)"
    using wd nc by (auto simp: watchdog_inv_def step_def chanrecv_def split: list.splits)
  have c: "watchdog s = WdDump \<longrightarrow>
            step WatchdogDump s =
              Some (s\<lparr>stdout := [\<lparr>snap_main = main s, snap_workers = map pc (workers s)\<rparr>],
                      watchdog := WdExited\<rparr>)"
    using wd nc by (auto simp: watchdog_inv_def step_def)
  have d: "watchdog s = WdExited \<longrightarrow>
            step WatchdogTimer s = None \<and> step WatchdogDump s = None \<and>
            step WatchdogFinished s = None"
    by (simp add: step_def)
  have h: "main s = MWait \<and> watchdog s = WdExited \<longrightarrow> length (stdout s) = 1"
    using wd q fin by (cases "stdout s") (auto simp: watchdog_inv_def)
  have e: "\<forall>e t. (e = TimerFires \<or> e = WatchdogTimer \<or> e = WatchdogDump \<or> e = WatchdogFinished) \<and>
            step e s = Some t \<longrightarrow>
            workers t = workers s \<and> wg t = wg s \<and> main t = main s \<and>
            ctx_done t = ctx_done s \<and> console t = console s"
    using timer_frame [of s] watchdog_timer_frame [of s] watchdog_dump_frame [of s]
      watchdog_finished_frame [of s]
    by blast
  from a f g b c d h e show ?thesis by blast
qed

text \<open>
  While the only worker waits and the minute has not elapsed, the watchdog has neither
  the finished nor the timer case to take. Once the minute has elapsed it takes the
  timer case, and its snapshot shows the caller in \<^verbatim>\<open>wg.Wait()\<close> and the worker in its
  \<^verbatim>\<open>select\<close>.
\<close>

theorem watchdog_observes_once_witness:
  "map_option (step WatchdogFinished) (run [Worker 0 Start] (deleteAllInBucket False ''b'' [])) =
     Some None \<and>
   map_option (step WatchdogTimer) (run [Worker 0 Start] (deleteAllInBucket False ''b'' [])) =
     Some None \<and>
   map_option watchdog
     (run [Worker 0 Start, TimerFires, WatchdogTimer] (deleteAllInBucket False ''b'' [])) =
     Some WdDump \<and>
   map_option (map_option stdout \<circ> step WatchdogDump)
     (run [Worker 0 Start, TimerFires, WatchdogTimer] (deleteAllInBucket False ''b'' [])) =
     Some (Some [\<lparr>snap_main = MWait, snap_workers = [WSelect]\<rparr>])"
proof -
  let ?q = "run [Worker 0 Start] (deleteAllInBucket False ''b'' [])"
  let ?r = "run [Worker 0 Start, TimerFires, WatchdogTimer] (deleteAllInBucket False ''b'' [])"
  have "?q \<noteq> None"
    by code_simp
  then obtain u where q: "?q = Some u"
    by blast
  have "map_option main ?q = Some MWait" "map_option minute_elapsed ?q = Some False"
    by code_simp+
  with q have k: "main u = MWait" "\<not> minute_elapsed u"
    by simp_all
  from watchdog_observes_once [OF q] k
  have w: "step WatchdogFinished u = None" "step WatchdogTimer u = None"
    by simp_all
  have "?r \<noteq> None"
    by code_simp
  then obtain s where r: "?r = Some s"
    by blast
  have "map_option watchdog ?r = Some WdDump" "map_option main ?r = Some MWait"
    "map_option (map pc \<circ> workers) ?r = Some [WSelect]"
    by code_simp+
  with r have f: "watchdog s = WdDump" "main s = MWait" "map pc (workers s) = [WSelect]"
    by simp_all
  from watchdog_observes_once [OF r] f
  have "step WatchdogDump s =
      Some (s\<lparr>stdout := [\<lparr>snap_main = MWait, snap_workers = [WSelect]\<rparr>], watchdog := WdExited\<rparr>)"
    by simp
  with q w r f show ?thesis
    by simp
qed

text \<open>
  C10, as stated, fails. The watchdog takes the timer case, then the last worker ends and
  the call returns, then the watchdog writes: its snapshot is emitted after the call has
  returned, and shows so.
\<close>

theorem snapshot_after_return_counterexample:
  "map_option main (run (butlast late_dump) (deleteAllInBucket False ''b'' [])) = Some MReturned \<and>
   map_option stdout (run (butlast late_dump) (deleteAllInBucket False ''b'' [])) = Some [] \<and>
   map_option stdout (run late_dump (deleteAllInBucket False ''b'' [])) =
     Some [\<lparr>snap_main = MReturned, snap_workers = [WExited]\<rparr>]"
  by code_simp

text \<open>
  C10, amended. The watchdog emits at most one snapshot per call, and none before the
  minute has elapsed. When \<^verbatim>\<open>deleteAllInBucket\<close> has returned, \<^verbatim>\<open>finished\<close> is closed, so
  a watchdog still in its \<^verbatim>\<open>select\<close> can take the finished case and return; once the
  watchdog has returned, nothing more is written, whatever happens next. (The return
  does not wait for the watchdog: one that takes the timer case may still write its
  snapshot after the call has returned.)
\<close>

theorem watchdog_at_most_one_snapshot:
  assumes "run sched (deleteAllInBucket ctx b ps) = Some s"
  shows "length (stdout s) \<le> 1 \<and>
         (stdout s \<noteq> [] \<longrightarrow> minute_elapsed s) \<and>
         (main s = MReturned \<longrightarrow> closed (finished s)) \<and>
         (main s = MReturned \<and> watchdog s = WdSelect \<longrightarrow>
            stdout s = [] \<and> step WatchdogFinished s = Some (s\<lparr>watchdog := WdExited\<rparr>)) \<and>
         (\<forall>sched' t. watchdog s = WdExited \<and> run sched' s = Some t \<longrightarrow>
            watchdog t = WdExited \<and> stdout t = stdout s)"
proof -
  have inv: "pipeline_inv s"
    using assms by (rule reachable_inv)
  then have nc: "\<not> crashed s"
    by (rule not_crashed)
  have wd: "watchdog_inv s"
    using assms by (rule reachable_watchdog_inv)
  have a: "length (stdout s) \<le> 1 \<and> (stdout s \<noteq> [] \<longrightarrow> minute_elapsed s)"
    using wd by (auto simp: watchdog_inv_def split: wdpc.splits)
  have b: "main s = MReturned \<longrightarrow> closed (finished s)"
    using inv by (auto simp: pipeline_inv_def)
  have c: "main s = MReturned \<and> watchdog s = WdSelect \<longrightarrow>
            stdout s = [] \<and> step WatchdogFinished s = Some (s\<lparr>watchdog := WdExited\<rparr>)"
    using inv wd nc by (auto simp: pipeline_inv_def watchdog_inv_def step_def chanrecv_def)
  have d: "\<forall>sched' t. watchdog s = WdExited \<and> run sched' s = Some t \<longrightarrow>
            watchdog t = WdExited \<and> stdout t = stdout s"
    using run_exited by blast
  from a b c d show ?thesis by blast
qed

text \<open>
  The call returns within the minute: the watchdog takes the finished case, and when the
  minute elapses later nothing is written.
\<close>

theorem watchdog_at_most_one_snapshot_witness:
  "map_option main (run clean_run (deleteAllInBucket False ''b'' [])) = Some MReturned \<and>
   map_option (map_option watchdog \<circ> step WatchdogFinished)
     (run clean_run (deleteAllInBucket False ''b'' [])) = Some (Some WdExited) \<and>
   map_option stdout
     (run (clean_run @ [WatchdogFinished, TimerFires]) (deleteAllInBucket False ''b'' [])) =
     Some []"
proof -
  let ?r = "run clean_run (deleteAllInBucket False ''b'' [])"
  have "?r \<noteq> None"
    by code_simp
  then obtain s where r: "?r = Some s"
    by blast
  have "map_option main ?r = Some MReturned" "map_option watchdog ?r = Some WdSelect"
    by code_simp+
  with r have f: "main s = MReturned" "watchdog s = WdSelect"
    by simp_all
  from watchdog_at_most_one_snapshot [OF r] f
  have g: "stdout s = []" "step WatchdogFinished s = Some (s\<lparr>watchdog := WdExited\<rparr>)"
    by simp_all
  have "map_option stdout
     (run (clean_run @ [WatchdogFinished, TimerFires]) (deleteAllInBucket False ''b'' [])) =
     Some []"
    by code_simp
  with r f g show ?thesis
    by simp
qed

section \<open>The resource handle\<close>



end
